theory Spec2Isabelle
  imports Complex_Main
begin

section \<open>Values\<close>

text \<open>
  The Python values that reach the functions of \<^verbatim>\<open>functions.py\<close>. A \<^verbatim>\<open>float\<close> is
  modelled by the real number it stands for: arithmetic is exact, no number is too large
  for a float, and the special values \<^verbatim>\<open>inf\<close> and \<^verbatim>\<open>nan\<close> are not inputs of the
  model. Where the exact total lies halfway between two cents, the float total of the
  program may lie to either side of it, so the last cent of the model is the program's
  only away from such ties. A \<^verbatim>\<open>str\<close> is a list of ASCII characters.
\<close>

datatype pyval =
    PyFloat real
  | PyInt int
  | PyBool bool
  | PyStr string
  | PyNone

text \<open>
  The builtin \<^verbatim>\<open>float(x)\<close>: \<open>None\<close> where it raises. How a string is read as a
  number is the builtin's business; it is the parameter \<open>parse\<close>.
\<close>

fun py_float :: "(string \<Rightarrow> real option) \<Rightarrow> pyval \<Rightarrow> real option" where
  "py_float parse (PyFloat x) = Some x"
| "py_float parse (PyInt n) = Some (of_int n)"
| "py_float parse (PyBool b) = Some (if b then 1 else 0)"
| "py_float parse (PyStr s) = parse s"
| "py_float parse PyNone = None"

text \<open>
  A reading of strings under which no string is a number, for running the functions on
  inputs such as \<^verbatim>\<open>"abc"\<close>, which \<^verbatim>\<open>float\<close> refuses.
\<close>

definition no_number :: "string \<Rightarrow> real option" where
  "no_number s = None"

datatype py_error = ValueError string

section \<open>Rounding\<close>

text \<open>
  The builtin \<^verbatim>\<open>round(x, ndigits)\<close> on a float rounds the value of \<open>x\<close> to the nearest
  multiple of \<open>10 ^ -ndigits\<close>, a tie going to the even multiple.
\<close>

definition round_half_even :: "real \<Rightarrow> int" where
  "round_half_even x =
     (let f = \<lfloor>x\<rfloor>
      in if x - of_int f < 1 / 2 then f
         else if 1 / 2 < x - of_int f then f + 1
         else if even f then f else f + 1)"

definition py_round :: "real \<Rightarrow> nat \<Rightarrow> real" where
  "py_round x ndigits = of_int (round_half_even (x * 10 ^ ndigits)) / 10 ^ ndigits"

section \<open>The tax computation\<close>

text \<open>An upper limit of a band: a number, or \<^verbatim>\<open>float('inf')\<close>.\<close>

datatype bound = Finite real | PosInf

fun min_bound :: "real \<Rightarrow> bound \<Rightarrow> real" where
  "min_bound c (Finite u) = min c u"
| "min_bound c PosInf = c"

text \<open>The table of \<^verbatim>\<open>calculate_tax\<close>: (upper limit, base tax, rate on excess).\<close>

definition brackets :: "(bound \<times> real \<times> real) list" where
  "brackets =
     [(Finite 5000, 0, 0.00),
      (Finite 20000, 0, 0.01),
      (Finite 35000, 150, 0.03),
      (Finite 50000, 600, 0.06),
      (Finite 70000, 1500, 0.11),
      (Finite 100000, 3700, 0.19),
      (Finite 400000, 9400, 0.25),
      (Finite 600000, 84400, 0.26),
      (Finite 2000000, 136400, 0.28),
      (PosInf, 528400, 0.30)]"

text \<open>
  The loop over the table, with its variables \<open>tax\<close> and \<open>lower\<close>. It leaves at
  \<^verbatim>\<open>break\<close> when \<open>chargeable \<le> lower\<close>, which is so for every number once \<open>lower\<close> is
  infinite.
\<close>

fun tax_loop :: "real \<Rightarrow> real \<Rightarrow> bound \<Rightarrow> (bound \<times> real \<times> real) list \<Rightarrow> real" where
  "tax_loop chargeable tax lower [] = tax"
| "tax_loop chargeable tax PosInf ((upper, base, rate) # rest) = tax"
| "tax_loop chargeable tax (Finite lower) ((upper, base, rate) # rest) =
     (if chargeable \<le> lower then tax
      else
        let taxable_in_band = min_bound chargeable upper - lower;
            incremental = (if rate = 0 then 0 else taxable_in_band * rate)
        in tax_loop chargeable (tax + incremental) upper rest)"

definition calculate_tax ::
  "(string \<Rightarrow> real option) \<Rightarrow> pyval \<Rightarrow> pyval \<Rightarrow> py_error + real" where
  "calculate_tax parse income tax_relief =
     (case py_float parse income of
        None \<Rightarrow> Inl (ValueError ''Income and tax_relief must be numeric.'')
      | Some income' \<Rightarrow>
          (case py_float parse tax_relief of
             None \<Rightarrow> Inl (ValueError ''Income and tax_relief must be numeric.'')
           | Some tax_relief' \<Rightarrow>
               let chargeable = max 0 (income' - tax_relief')
               in Inr (py_round (tax_loop chargeable 0 (Finite 0) brackets) 2)))"




text \<open>
  The tax on whole bands: every band of the list taken at its full width, the first one
  starting at \<open>lower\<close>. A band without an upper limit has no full width and ends the sum.
\<close>

fun cumulative :: "real \<Rightarrow> (bound \<times> real \<times> real) list \<Rightarrow> real" where
  "cumulative lower [] = 0"
| "cumulative lower ((PosInf, base, rate) # rest) = 0"
| "cumulative lower ((Finite upper, base, rate) # rest) =
     (upper - lower) * rate + cumulative upper rest"

text \<open>The lower limit of the band that follows the bands \<open>pre\<close> of a table starting at 0.\<close>

fun lower_after :: "(bound \<times> real \<times> real) list \<Rightarrow> bound" where
  "lower_after [] = Finite 0"
| "lower_after (b # bs) = fst (last (b # bs))"

text \<open>
  A table is ascending from \<open>lower\<close> when each upper limit is at least the one before
  it (the first at least \<open>lower\<close>) and no rate is negative.
\<close>

fun bound_le :: "bound \<Rightarrow> bound \<Rightarrow> bool" where
  "bound_le (Finite a) (Finite b) = (a \<le> b)"
| "bound_le a PosInf = True"
| "bound_le PosInf (Finite b) = False"

fun ascending :: "bound \<Rightarrow> (bound \<times> real \<times> real) list \<Rightarrow> bool" where
  "ascending lower [] = True"
| "ascending lower ((upper, base, rate) # rest) =
     (bound_le lower upper \<and> 0 \<le> rate \<and> ascending upper rest)"

section \<open>Credentials\<close>




section \<open>Reading the records\<close>

text \<open>
  \<^verbatim>\<open>read_from_csv\<close> meets the file system through \<^verbatim>\<open>os.path.exists\<close> and
  \<^verbatim>\<open>pd.read_csv\<close>, the parameters \<open>path_exists\<close> and \<open>read_csv\<close>; \<open>read_csv\<close> gives
  \<open>Inl e\<close> where the library raises the exception \<open>e\<close>. The result is \<open>Inl e\<close> where
  \<^verbatim>\<open>read_from_csv\<close> itself raises, and \<open>Inr None\<close> where it returns \<^verbatim>\<open>None\<close>.
\<close>

definition read_from_csv ::
  "(string \<Rightarrow> bool) \<Rightarrow> (string \<Rightarrow> 'e + 'df) \<Rightarrow> string \<Rightarrow> 'e + 'df option" where
  "read_from_csv path_exists read_csv filename =
     (if \<not> path_exists filename then Inr None
      else (case read_csv filename of
              Inr df \<Rightarrow> Inr (Some df)
            | Inl e \<Rightarrow> Inr None))"

section \<open>Properties of rounding\<close>

lemma round_half_even_floor:
  "\<lfloor>x\<rfloor> \<le> round_half_even x \<and> round_half_even x \<le> \<lfloor>x\<rfloor> + 1"
  unfolding round_half_even_def Let_def by auto


lemma round_half_even_mono:
  assumes "x \<le> y"
  shows "round_half_even x \<le> round_half_even y"
proof (cases "\<lfloor>x\<rfloor> = \<lfloor>y\<rfloor>")
  case True
  with assms show ?thesis
    unfolding round_half_even_def Let_def by auto
next
  case False
  with floor_mono [OF assms] have "\<lfloor>x\<rfloor> + 1 \<le> \<lfloor>y\<rfloor>" by linarith
  with round_half_even_floor [of x] round_half_even_floor [of y] show ?thesis
    by linarith
qed

lemma py_round_mono: "x \<le> y \<Longrightarrow> py_round x n \<le> py_round y n"
  unfolding py_round_def
  by (simp add: divide_right_mono round_half_even_mono mult_right_mono)



section \<open>Properties of the loop\<close>

lemmas tax_eval = calculate_tax_def brackets_def py_round_def round_half_even_def



lemma ascending_brackets: "ascending (Finite 0) brackets"
  by (simp add: brackets_def)


text \<open>On an ascending table the loop never lowers the running total.\<close>

lemma tax_loop_ge: "ascending lo bs \<Longrightarrow> t \<le> tax_loop c t lo bs"
proof (induction c t lo bs rule: tax_loop.induct)
  case (3 chargeable tax lower upper base rate rest)
  show ?case
  proof (cases "chargeable \<le> lower")
    case True
    then show ?thesis by simp
  next
    case False
    from 3(2) have asc: "ascending upper rest" and r: "0 \<le> rate"
      and lu: "bound_le (Finite lower) upper"
      by auto
    from lu False have "0 \<le> min_bound chargeable upper - lower"
      by (cases upper) auto
    with r have inc: "0 \<le> (if rate = 0 then 0 else (min_bound chargeable upper - lower) * rate)"
      by simp
    from 3(1) [OF False refl refl asc] inc False show ?thesis
      by (simp add: Let_def split: if_splits)
  qed
qed simp_all

text \<open>On an ascending table a larger chargeable income and a larger start give a larger total.\<close>

lemma tax_loop_mono:
  "ascending lo bs \<Longrightarrow> c1 \<le> c2 \<Longrightarrow> t1 \<le> t2 \<Longrightarrow>
     tax_loop c1 t1 lo bs \<le> tax_loop c2 t2 lo bs"
proof (induction bs arbitrary: lo t1 t2)
  case Nil
  then show ?case by simp
next
  case (Cons b bs)
  obtain upper base rate where b: "b = (upper, base, rate)" by (cases b)
  show ?case
  proof (cases lo)
    case PosInf
    with Cons.prems b show ?thesis by simp
  next
    case (Finite lower)
    from Cons.prems(1) b Finite have asc: "ascending upper bs" and r: "0 \<le> rate"
      by auto
    show ?thesis
    proof (cases "c1 \<le> lower")
      case True
      have "t1 \<le> t2" by fact
      also have "t2 \<le> tax_loop c2 t2 lo (b # bs)"
        using tax_loop_ge [OF Cons.prems(1)] .
      finally show ?thesis using True Finite b by simp
    next
      case False
      with Cons.prems(2) have c2: "\<not> c2 \<le> lower" by simp
      have "min_bound c1 upper \<le> min_bound c2 upper"
        using Cons.prems(2) by (cases upper) auto
      then have "(min_bound c1 upper - lower) * rate \<le> (min_bound c2 upper - lower) * rate"
        using r by (simp add: mult_right_mono)
      then have "t1 + (if rate = 0 then 0 else (min_bound c1 upper - lower) * rate)
         \<le> t2 + (if rate = 0 then 0 else (min_bound c2 upper - lower) * rate)"
        using Cons.prems(3) by simp
      from Cons.IH [OF asc Cons.prems(2) this] False c2 Finite b show ?thesis
        by (simp add: Let_def)
    qed
  qed
qed

text \<open>Every band of the table that has an upper limit, with the bands before it.\<close>

lemma band_at:
  assumes "brackets = pre @ (Finite u, base, rate) # post"
  shows "pre = [] \<and> u = 5000 \<and> rate = 0.00
       \<or> pre = take 1 brackets \<and> u = 20000 \<and> rate = 0.01
       \<or> pre = take 2 brackets \<and> u = 35000 \<and> rate = 0.03
       \<or> pre = take 3 brackets \<and> u = 50000 \<and> rate = 0.06
       \<or> pre = take 4 brackets \<and> u = 70000 \<and> rate = 0.11
       \<or> pre = take 5 brackets \<and> u = 100000 \<and> rate = 0.19
       \<or> pre = take 6 brackets \<and> u = 400000 \<and> rate = 0.25
       \<or> pre = take 7 brackets \<and> u = 600000 \<and> rate = 0.26
       \<or> pre = take 8 brackets \<and> u = 2000000 \<and> rate = 0.28"
proof -
  define k where "k = length pre"
  have pre: "pre = take k brackets" unfolding assms k_def by simp
  have nth: "brackets ! k = (Finite u, base, rate)" unfolding assms k_def by simp
  have "length brackets = 10" by (simp add: brackets_def)
  moreover have "length brackets = Suc (k + length post)"
    unfolding assms k_def by simp
  ultimately have "k < 10" by simp
  then consider "k = 0" | "k = 1" | "k = 2" | "k = 3" | "k = 4" | "k = 5" | "k = 6"
    | "k = 7" | "k = 8" | "k = 9"
    by atomize_elim presburger
  then show ?thesis
  proof cases
    case 1 with nth pre show ?thesis by (simp add: brackets_def)
  next
    case 2 with nth pre show ?thesis by (simp add: brackets_def)
  next
    case 3 with nth pre show ?thesis by (simp add: brackets_def)
  next
    case 4 with nth pre show ?thesis by (simp add: brackets_def)
  next
    case 5 with nth pre show ?thesis by (simp add: brackets_def)
  next
    case 6 with nth pre show ?thesis by (simp add: brackets_def)
  next
    case 7 with nth pre show ?thesis by (simp add: brackets_def)
  next
    case 8 with nth pre show ?thesis by (simp add: brackets_def)
  next
    case 9 with nth pre show ?thesis by (simp add: brackets_def)
  next
    case 10 with nth show ?thesis by (simp add: brackets_def)
  qed
qed

text \<open>
  The base tax the table lists for a band is the tax on the band's lower limit: 3700 is
  the tax on 70000, and 9400, the base of the next band, the tax on 100000.
\<close>

lemma calculate_tax_at_70000:
  "calculate_tax parse (PyFloat 70000) (PyFloat 0) = Inr 3700"
  by (simp add: tax_eval)

section \<open>The claims\<close>



text \<open>
  C2, as amended. The tax on 5000 is 0.00, on 20000 it is 150.00, on 35000 it is 600.00,
  and on 100000 it is 9400.00, each with no relief. The specification gives 3700.00 for
  100000; that is the tax on 70000, the lower limit of the band that ends at 100000.
\<close>

theorem calculate_tax_points:
  "calculate_tax parse (PyFloat 5000) (PyFloat 0) = Inr 0.00 \<and>
   calculate_tax parse (PyFloat 20000) (PyFloat 0) = Inr 150.00 \<and>
   calculate_tax parse (PyFloat 35000) (PyFloat 0) = Inr 600.00 \<and>
   calculate_tax parse (PyFloat 100000) (PyFloat 0) = Inr 9400.00"
  by (simp add: tax_eval)

theorem calculate_tax_100000_counterexample:
  "calculate_tax no_number (PyFloat 100000) (PyFloat 0) = Inr 9400.00 \<and>
   calculate_tax no_number (PyFloat 100000) (PyFloat 0) \<noteq> Inr 3700.00"
  by (simp add: tax_eval)





text \<open>
  C5. For every band of the table with a finite upper limit \<open>u\<close>, the bands before it
  being \<open>pre\<close>: the tax on a chargeable income of exactly \<open>u\<close> is the tax on the whole
  bands \<open>pre\<close> plus the full width of the band ending at \<open>u\<close> at that band's rate, and the
  bands after it add nothing (the loop gives the same total on the table cut after the
  band).
\<close>

theorem boundary_continuity:
  assumes "brackets = pre @ (Finite u, base, rate) # post"
  shows "(\<exists>lower. lower_after pre = Finite lower \<and>
            calculate_tax parse (PyFloat u) (PyFloat 0) =
              Inr (py_round (cumulative 0 pre + (u - lower) * rate) 2)) \<and>
         tax_loop u 0 (Finite 0) brackets =
           tax_loop u 0 (Finite 0) (pre @ [(Finite u, base, rate)])"
  using band_at [OF assms]
  by (elim disjE conjE; hypsubst; simp add: tax_eval)

theorem boundary_continuity_witness:
  "brackets = take 2 brackets @ (Finite 35000, 150, 0.03) # drop 3 brackets \<and>
   lower_after (take 2 brackets) = Finite 20000 \<and>
   calculate_tax no_number (PyFloat 35000) (PyFloat 0) =
     Inr (py_round (cumulative 0 (take 2 brackets) + (35000 - 20000) * 0.03) 2) \<and>
   tax_loop 35000 0 (Finite 0) brackets =
     tax_loop 35000 0 (Finite 0) (take 2 brackets @ [(Finite 35000, 150, 0.03)])"
proof -
  have split: "brackets = take 2 brackets @ (Finite 35000, 150, 0.03) # drop 3 brackets"
    by (simp add: brackets_def)
  have lo: "lower_after (take 2 brackets) = Finite 20000"
    by (simp add: brackets_def)
  from boundary_continuity [OF split, of no_number] split lo show ?thesis
    by auto
qed

text \<open>
  C6. For a fixed relief the tax does not fall when the income rises, and for a fixed
  income it does not rise when the relief rises.
\<close>

theorem calculate_tax_monotone:
  "(income1 \<le> income2 \<longrightarrow>
      (\<exists>t1 t2. calculate_tax parse (PyFloat income1) (PyFloat relief) = Inr t1 \<and>
         calculate_tax parse (PyFloat income2) (PyFloat relief) = Inr t2 \<and> t1 \<le> t2)) \<and>
   (relief1 \<le> relief2 \<longrightarrow>
      (\<exists>t1 t2. calculate_tax parse (PyFloat income) (PyFloat relief1) = Inr t1 \<and>
         calculate_tax parse (PyFloat income) (PyFloat relief2) = Inr t2 \<and> t2 \<le> t1))"
proof -
  have mono: "py_round (tax_loop (max 0 a) 0 (Finite 0) brackets) 2
      \<le> py_round (tax_loop (max 0 b) 0 (Finite 0) brackets) 2" if "a \<le> b" for a b :: real
  proof -
    from that have "max 0 a \<le> max 0 b" by simp
    then show ?thesis
      by (intro py_round_mono tax_loop_mono ascending_brackets) simp_all
  qed
  show ?thesis
    by (simp add: calculate_tax_def mono)
qed

theorem calculate_tax_monotone_witness:
  "(\<exists>t1 t2. calculate_tax no_number (PyFloat 40000) (PyFloat 9000) = Inr t1 \<and>
      calculate_tax no_number (PyFloat 85000) (PyFloat 9000) = Inr t2 \<and> t1 \<le> t2) \<and>
   (\<exists>t1 t2. calculate_tax no_number (PyFloat 85000) (PyFloat 9000) = Inr t1 \<and>
      calculate_tax no_number (PyFloat 85000) (PyFloat 13000) = Inr t2 \<and> t2 \<le> t1)"
  using calculate_tax_monotone [of 40000 85000 no_number 9000 9000 13000 85000]
  by simp





text \<open>
  C10. \<^verbatim>\<open>read_from_csv\<close> never raises: it returns \<^verbatim>\<open>None\<close> when the file does not
  exist or when reading it fails, and the records read otherwise.
\<close>

theorem read_from_csv_total:
  "(\<not> path_exists filename \<or> (\<exists>e. read_csv filename = Inl e) \<longrightarrow>
      read_from_csv path_exists read_csv filename = Inr None) \<and>
   (\<forall>df. path_exists filename \<and> read_csv filename = Inr df \<longrightarrow>
      read_from_csv path_exists read_csv filename = Inr (Some df)) \<and>
   (\<forall>e. read_from_csv path_exists read_csv filename \<noteq> Inl e)"
  by (auto simp: read_from_csv_def split: sum.splits)

theorem read_from_csv_total_witness:
  "read_from_csv (\<lambda>f. f = ''tax_records.csv'') (\<lambda>f. Inr [''980101014321'', ''60000.0''])
      ''missing.csv'' = (Inr None :: string + string list option) \<and>
   read_from_csv (\<lambda>f. True) (\<lambda>f. Inl ''EmptyDataError'') ''tax_records.csv''
      = (Inr None :: string + string list option) \<and>
   read_from_csv (\<lambda>f. f = ''tax_records.csv'') (\<lambda>f. Inr [''980101014321'', ''60000.0''])
      ''tax_records.csv''
      = (Inr (Some [''980101014321'', ''60000.0'']) :: string + string list option)"
  using
    read_from_csv_total [of "\<lambda>f. f = ''tax_records.csv''" "''missing.csv''"
      "\<lambda>f. Inr [''980101014321'', ''60000.0''] :: string + string list"]
    read_from_csv_total [of "\<lambda>f. True" "''tax_records.csv''"
      "\<lambda>f. Inl ''EmptyDataError'' :: string + string list"]
    read_from_csv_total [of "\<lambda>f. f = ''tax_records.csv''" "''tax_records.csv''"
      "\<lambda>f. Inr [''980101014321'', ''60000.0''] :: string + string list"]
  by simp

end
